theory Spec2Isabelle
  imports Main "HOL-Library.AList"
begin

section \<open>The XMLHttpRequest emulation of src/ssr/functions/XMLHttpRequest.ts\<close>

text \<open>
  The constructor function \<open>XMLHttpRequest\<close> closes over a handful of private variables
  and assigns its methods to \<open>this\<close>. The model keeps all of them, private and public, in
  one record \<open>xhr\<close>; every method takes the record and returns the updated one.

  Conventions of the embedding:
  \<^item> A JavaScript object used as a dictionary is an association list of its own
    properties in insertion order. \<open>AList.update\<close> overwrites a key in place or appends
    it, as property assignment does. Keys inherited from \<open>Object.prototype\<close> are not
    part of the model.
  \<^item> Strings are lists of 8-bit characters; \<open>toLowerCase\<close> folds the ASCII letters.
  \<^item> A \<open>throw\<close> is the left injection of a sum, and it carries the object as the
    statement left it, because assignments made before the \<open>throw\<close> persist.
  \<^item> Handlers and listeners are code of the caller. \<open>dispatchEvent\<close> is modelled by
    recording the event in \<open>trace\<close>; a handler that calls back into the object is outside
    the model. The trace also records every assignment to \<open>readyState\<close>, every
    \<open>console.warn\<close>, and every request handed to the transport, so that orderings can
    be stated.
  \<^item> Node's \<open>URL\<close> parser, base64 encoding, the file system and the worker process of
    the synchronous mode are collaborators; they are fields of the record \<open>env\<close>.
\<close>

subsection \<open>Values\<close>

datatype error =
    SecurityError                \<comment> \<open>\<open>Error("SecurityError: Request method not allowed")\<close>\<close>
  | INVALID_STATE_ERR string     \<comment> \<open>\<open>Error("INVALID_STATE_ERR: " + text)\<close>\<close>
  | ProtocolNotSupported         \<comment> \<open>\<open>Error("Protocol not supported.")\<close>\<close>
  | OnlyGetSupported             \<comment> \<open>\<open>Error("XMLHttpRequest: Only GET method is supported")\<close>\<close>
  | InvalidURL                   \<comment> \<open>the \<open>TypeError\<close> of \<open>new Url.URL\<close>\<close>
  | TypeError                    \<comment> \<open>reading a property of \<open>undefined\<close>\<close>

text \<open>The error objects that the transport or the file system hand to \<open>handleError\<close>.\<close>

datatype js_error = JsError (message: string) (stack: "string option")

text \<open>Request header values: strings, and the number stored under \<open>Content-Length\<close>.\<close>

datatype hval = Str string | Num nat

text \<open>Response header values as Node delivers them: a string, or an array of strings.\<close>

datatype rhval = One string | Many "string list"

text \<open>\<open>url.port || (ssl ? 443 : 80)\<close> is a string or a number.\<close>

datatype jsport = PortStr string | PortNum nat

record url =
  protocol :: string
  hostname :: string
  port :: string
  pathname :: string
  search :: string

text \<open>\<open>settings\<close> starts as \<open>{}\<close>: every property is \<open>undefined\<close> (\<open>None\<close>) until \<open>open\<close>.\<close>

record settings =
  "method" :: "string option"
  url :: "string option"
  async :: "bool option"
  user :: "string option"
  password :: "string option"

record response =
  statusCode :: nat
  rheaders :: "(string \<times> rhval) list"

text \<open>The options object given to \<open>http.request\<close> or \<open>https.request\<close>.\<close>

record options =
  o_host :: string
  o_port :: jsport
  o_path :: string
  o_method :: "string option"
  o_headers :: "(string \<times> hval) list"
  o_withCredentials :: bool

datatype obs =
    Fired string           \<comment> \<open>\<open>dispatchEvent(name)\<close>\<close>
  | ReadyState nat         \<comment> \<open>an assignment to \<open>readyState\<close>\<close>
  | Warned string          \<comment> \<open>\<open>console.warn(text)\<close>\<close>
  | Issued bool options    \<comment> \<open>\<open>doRequest(options, ...)\<close>; the flag is \<open>ssl\<close>\<close>
  | Wrote string           \<comment> \<open>\<open>request.write(data)\<close>\<close>
  | Spawned bool options   \<comment> \<open>the worker process of the synchronous mode, with \<open>ssl\<close>\<close>
  | Cancelled              \<comment> \<open>\<open>request.abort()\<close>\<close>

text \<open>
  \<open>headers\<close> is a variable that holds a reference. It starts as an object of its own
  (\<open>ownHeaders\<close>); \<open>abort\<close> assigns \<open>defaultHeaders\<close> to it, and from then on both names
  denote one object (\<open>headersShared\<close>).
\<close>

record xhr =
  request :: "options option"
  response :: "response option"
  settings :: settings
  disableHeaderCheck :: bool
  defaultHeaders :: "(string \<times> hval) list"
  ownHeaders :: "(string \<times> hval) list"
  headersShared :: bool
  headersCase :: "(string \<times> string) list"
  sendFlag :: bool
  errorFlag :: bool
  readyState :: nat
  responseText :: "string option"
  responseXML :: string
  status :: "nat option"
  statusText :: "js_error option"
  withCredentials :: bool
  trace :: "obs list"

type_synonym result = "(error \<times> xhr) + xhr"

abbreviation UNSENT :: nat where "UNSENT \<equiv> 0"
abbreviation OPENED :: nat where "OPENED \<equiv> 1"
abbreviation HEADERS_RECEIVED :: nat where "HEADERS_RECEIVED \<equiv> 2"
abbreviation LOADING :: nat where "LOADING \<equiv> 3"
abbreviation DONE :: nat where "DONE \<equiv> 4"

definition new_xhr :: xhr where
  "new_xhr = \<lparr> request = None, response = None,
     settings = \<lparr> method = None, url = None, async = None, user = None, password = None \<rparr>,
     disableHeaderCheck = False,
     defaultHeaders = [(''User-Agent'', Str ''node-XMLHttpRequest''), (''Accept'', Str ''*/*'')],
     ownHeaders = [], headersShared = False, headersCase = [],
     sendFlag = False, errorFlag = False, readyState = UNSENT,
     responseText = Some '''', responseXML = '''', status = None, statusText = None,
     withCredentials = False, trace = [] \<rparr>"

definition forbiddenRequestHeaders :: "string list" where
  "forbiddenRequestHeaders =
    [''accept-charset'', ''accept-encoding'', ''access-control-request-headers'',
     ''access-control-request-method'', ''connection'', ''content-length'',
     ''content-transfer-encoding'', ''cookie'', ''cookie2'', ''date'', ''expect'', ''host'',
     ''keep-alive'', ''origin'', ''referer'', ''te'', ''trailer'', ''transfer-encoding'',
     ''upgrade'', ''via'']"

definition forbiddenRequestMethods :: "string list" where
  "forbiddenRequestMethods = [''TRACE'', ''TRACK'', ''CONNECT'']"

subsection \<open>String helpers\<close>

definition lowerChar :: "char \<Rightarrow> char" where
  "lowerChar c =
     (case map_of (zip ''ABCDEFGHIJKLMNOPQRSTUVWXYZ'' ''abcdefghijklmnopqrstuvwxyz'') c of
        None \<Rightarrow> c
      | Some l \<Rightarrow> l)"

definition toLowerCase :: "string \<Rightarrow> string" where
  "toLowerCase s = map lowerChar s"

definition digit :: "nat \<Rightarrow> char" where
  "digit d = ''0123456789'' ! d"

fun show_nat :: "nat \<Rightarrow> string" where
  "show_nat n = (if n < 10 then [digit n] else show_nat (n div 10) @ [digit (n mod 10)])"

declare show_nat.simps [simp del]

text \<open>JavaScript's truthiness and string coercion on header values.\<close>

fun truthy :: "hval \<Rightarrow> bool" where
  "truthy (Str s) = (s \<noteq> [])"
| "truthy (Num n) = (n \<noteq> 0)"

fun hstr :: "hval \<Rightarrow> string" where
  "hstr (Str s) = s"
| "hstr (Num n) = show_nat n"

fun join :: "string \<Rightarrow> string list \<Rightarrow> string" where
  "join sep [] = []"
| "join sep [x] = x"
| "join sep (x # y # ys) = x @ sep @ join sep (y # ys)"

fun rhstr :: "rhval \<Rightarrow> string" where
  "rhstr (One s) = s"
| "rhstr (Many xs) = join '','' xs"

definition CRLF :: string where
  "CRLF = [CHR 0x0D, CHR 0x0A]"

subsection \<open>Private methods\<close>

definition isAllowedHttpHeader :: "xhr \<Rightarrow> string \<Rightarrow> bool" where
  "isAllowedHttpHeader st header \<longleftrightarrow>
     disableHeaderCheck st \<or>
     (header \<noteq> [] \<and> toLowerCase header \<notin> set forbiddenRequestHeaders)"

definition isAllowedHttpMethod :: "string \<Rightarrow> bool" where
  "isAllowedHttpMethod m \<longleftrightarrow> m \<noteq> [] \<and> m \<notin> set forbiddenRequestMethods"

definition headers :: "xhr \<Rightarrow> (string \<times> hval) list" where
  "headers st = (if headersShared st then defaultHeaders st else ownHeaders st)"

text \<open>\<open>headers[k] = v\<close>: the write lands in whichever object \<open>headers\<close> refers to.\<close>

definition headers_set :: "string \<Rightarrow> hval \<Rightarrow> xhr \<Rightarrow> xhr" where
  "headers_set k v st =
     (if headersShared st then st\<lparr> defaultHeaders := AList.update k v (defaultHeaders st) \<rparr>
      else st\<lparr> ownHeaders := AList.update k v (ownHeaders st) \<rparr>)"

definition dispatchEvent :: "string \<Rightarrow> xhr \<Rightarrow> xhr" where
  "dispatchEvent event st = st\<lparr> trace := trace st @ [Fired event] \<rparr>"

definition assign_readyState :: "nat \<Rightarrow> xhr \<Rightarrow> xhr" where
  "assign_readyState s st = st\<lparr> readyState := s, trace := trace st @ [ReadyState s] \<rparr>"

definition setState :: "nat \<Rightarrow> xhr \<Rightarrow> xhr" where
  "setState state st =
     (if state = LOADING \<or> readyState st \<noteq> state then
        let st1 = assign_readyState state st;
            st2 = (if async (settings st1) = Some True \<or> readyState st1 < OPENED
                      \<or> readyState st1 = DONE
                   then dispatchEvent ''readystatechange'' st1 else st1)
        in if readyState st2 = DONE \<and> \<not> errorFlag st2
           then dispatchEvent ''loadend'' (dispatchEvent ''load'' st2)
           else st2
      else st)"

subsection \<open>Public methods\<close>

text \<open>
  \<open>open(method, url, async, user, password)\<close>. The argument \<open>async\<close> is \<open>None\<close> when the
  caller passes no boolean; \<open>user || null\<close> turns an absent or empty string into \<open>null\<close>.
\<close>

definition or_null :: "string option \<Rightarrow> string option" where
  "or_null x = (case x of None \<Rightarrow> None | Some s \<Rightarrow> if s = [] then None else Some s)"

definition open_xhr ::
  "string \<Rightarrow> string \<Rightarrow> bool option \<Rightarrow> string option \<Rightarrow> string option \<Rightarrow> xhr \<Rightarrow> result" where
  "open_xhr m u a usr pw st =
     (let st1 = st\<lparr> errorFlag := False \<rparr> in
      if \<not> isAllowedHttpMethod m then Inl (SecurityError, st1)
      else Inr (setState OPENED
        (st1\<lparr> settings := \<lparr> method = Some m, url = Some u,
                            async = Some (case a of None \<Rightarrow> True | Some b \<Rightarrow> b),
                            user = or_null usr, password = or_null pw \<rparr> \<rparr>)))"

definition setDisableHeaderCheck :: "bool \<Rightarrow> xhr \<Rightarrow> xhr" where
  "setDisableHeaderCheck state st = st\<lparr> disableHeaderCheck := state \<rparr>"

definition unsafe_header_warning :: "string \<Rightarrow> string" where
  "unsafe_header_warning header = ''Refused to set unsafe header \"'' @ header @ ''\"''"

definition setRequestHeader :: "string \<Rightarrow> string \<Rightarrow> xhr \<Rightarrow> result" where
  "setRequestHeader header v st =
     (if readyState st \<noteq> OPENED then
        Inl (INVALID_STATE_ERR ''setRequestHeader can only be called when state is OPEN'', st)
      else if \<not> isAllowedHttpHeader st header then
        Inr (st\<lparr> trace := trace st @ [Warned (unsafe_header_warning header)] \<rparr>)
      else if sendFlag st then Inl (INVALID_STATE_ERR ''send flag is true'', st)
      else
        let h = (case map_of (headersCase st) (toLowerCase header) of
                   None \<Rightarrow> header
                 | Some c \<Rightarrow> if c \<noteq> [] then c else header);
            st1 = st\<lparr> headersCase := AList.update (toLowerCase h) h (headersCase st) \<rparr>
        in Inr (headers_set h
                  (case map_of (headers st1) h of
                     None \<Rightarrow> Str v
                   | Some old \<Rightarrow> if truthy old then Str (hstr old @ '', '' @ v) else Str v)
                  st1))"

text \<open>
  \<open>getAllResponseHeaders()\<close>. The test \<open>Array.isArray(i)\<close> is applied to the key \<open>i\<close>, a
  string, so it never holds and both branches of the loop body append the same line.
  \<open>response.headers\<close> of an absent response is a \<open>TypeError\<close>.
  \<open>substring(0, length - 2)\<close> with a negative end yields the empty string, as
  truncated subtraction and \<open>take\<close> do.
\<close>

definition header_line :: "string \<times> rhval \<Rightarrow> string" where
  "header_line p = fst p @ '': '' @ rhstr (snd p) @ CRLF"

definition getAllResponseHeaders :: "xhr \<Rightarrow> (error \<times> xhr) + string" where
  "getAllResponseHeaders st =
     (if readyState st < HEADERS_RECEIVED \<or> errorFlag st then Inr []
      else case response st of
        None \<Rightarrow> Inl (TypeError, st)
      | Some r \<Rightarrow>
          let res = concat (map header_line (rheaders r))
          in Inr (take (length res - 2) res))"

definition handleError :: "js_error \<Rightarrow> xhr \<Rightarrow> xhr" where
  "handleError e st =
     dispatchEvent ''error''
       (setState DONE
         (st\<lparr> status := Some 0, statusText := Some e, responseText := stack e,
              errorFlag := True \<rparr>))"

definition abort :: "xhr \<Rightarrow> xhr" where
  "abort st =
     (let st1 = (case request st of
                   None \<Rightarrow> st
                 | Some r \<Rightarrow> st\<lparr> request := None, trace := trace st @ [Cancelled] \<rparr>);
          st2 = st1\<lparr> headersShared := True, status := Some 0, responseText := Some [],
                     responseXML := [], errorFlag := True \<rparr>;
          st3 = (if readyState st2 \<noteq> UNSENT \<and> (readyState st2 \<noteq> OPENED \<or> sendFlag st2)
                    \<and> readyState st2 \<noteq> DONE
                 then setState DONE (st2\<lparr> sendFlag := False \<rparr>)
                 else st2)
      in dispatchEvent ''abort'' (assign_readyState UNSENT st3))"

subsection \<open>send\<close>

record env =
  parseURL :: "string \<Rightarrow> url option"
    \<comment> \<open>\<open>new Url.URL(s)\<close>; \<open>None\<close> when the constructor throws\<close>
  base64 :: "string \<Rightarrow> string"
    \<comment> \<open>\<open>Buffer.from(s).toString("base64")\<close>\<close>
  readFileSync :: "string \<Rightarrow> js_error + string"
    \<comment> \<open>\<open>fs.readFileSync(path, "utf8")\<close>\<close>
  syncFileExists :: "nat \<Rightarrow> bool"
    \<comment> \<open>the answer of the n-th \<open>fs.existsSync(syncFile)\<close>\<close>
  syncResult :: "js_error + response \<times> string"
    \<comment> \<open>the parsed content file: \<open>{err}\<close>, or \<open>{err: null, data}\<close> with \<open>data.text\<close>\<close>

text \<open>\<open>while (fs.existsSync(syncFile)) {}\<close>: the value is the number of polls that said yes.\<close>

partial_function (option) busy_wait :: "(nat \<Rightarrow> bool) \<Rightarrow> nat \<Rightarrow> nat option" where
  "busy_wait ex i = (if ex i then busy_wait ex (Suc i) else Some i)"

declare busy_wait.simps [code]

definition falsy_case :: "string option \<Rightarrow> bool" where
  "falsy_case x = (case x of None \<Rightarrow> True | Some c \<Rightarrow> c = [])"

text \<open>
  \<open>for (const name in defaultHeaders) if (!headersCase[name.toLowerCase()])
  headers[name] = defaultHeaders[name]\<close>. The keys are those of \<open>defaultHeaders\<close> when the
  loop starts; the body adds none, because it writes to \<open>defaultHeaders\<close> only when
  \<open>headers\<close> is that same object, and then under a key it already has.
\<close>

definition default_step :: "string \<Rightarrow> xhr \<Rightarrow> xhr" where
  "default_step name st =
     (if falsy_case (map_of (headersCase st) (toLowerCase name)) then
        (case map_of (defaultHeaders st) name of
           None \<Rightarrow> st
         | Some v \<Rightarrow> headers_set name v st)
      else st)"

definition merge_defaults :: "xhr \<Rightarrow> xhr" where
  "merge_defaults st = fold default_step (map fst (defaultHeaders st)) st"

text \<open>\<open>headers[k] += s\<close>.\<close>

definition headers_append :: "string \<Rightarrow> string \<Rightarrow> xhr \<Rightarrow> xhr" where
  "headers_append k s st =
     headers_set k
       (Str ((case map_of (headers st) k of None \<Rightarrow> ''undefined'' | Some v \<Rightarrow> hstr v) @ s)) st"

text \<open>
  The load of a local file. With \<open>async\<close> set, \<open>fs.readFile\<close> is only scheduled; its
  callback is the transport event \<open>FileRead\<close> below.
\<close>

definition send_local :: "env \<Rightarrow> url \<Rightarrow> xhr \<Rightarrow> result" where
  "send_local E u st =
     (if method (settings st) \<noteq> Some ''GET'' then Inl (OnlyGetSupported, st)
      else if async (settings st) = Some True then Inr st
      else case readFileSync E (pathname u) of
             Inr content \<Rightarrow>
               Inr (setState DONE (st\<lparr> responseText := Some content, status := Some 200 \<rparr>))
           | Inl e \<Rightarrow> Inr (handleError e st))"

text \<open>
  The headers of a network request: defaults, \<open>Host\<close>, basic authentication, and the
  content headers. \<open>settings.password\<close> is \<open>null\<close> or a string whenever \<open>settings.user\<close>
  is set, so the test for \<open>undefined\<close> never fires and \<open>null\<close> is concatenated as the
  text \<open>null\<close>. \<open>set_content\<close> also returns \<open>data\<close> as the method rule leaves it.
\<close>

definition host_port :: "bool \<Rightarrow> url \<Rightarrow> jsport" where
  "host_port ssl u = (if port u \<noteq> [] then PortStr (port u) else PortNum (if ssl then 443 else 80))"

definition set_host :: "bool \<Rightarrow> string \<Rightarrow> url \<Rightarrow> xhr \<Rightarrow> xhr" where
  "set_host ssl host u st =
     (let st1 = headers_set ''Host'' (Str host) st in
      if \<not> ((ssl \<and> host_port ssl u = PortNum 443) \<or> host_port ssl u = PortNum 80)
      then headers_append ''Host'' ('':'' @ port u) st1
      else st1)"

definition set_auth :: "env \<Rightarrow> xhr \<Rightarrow> xhr" where
  "set_auth E st =
     (case or_null (user (settings st)) of
        None \<Rightarrow> st
      | Some usr \<Rightarrow>
          headers_set ''Authorization''
            (Str (''Basic '' @ base64 E (usr @ '':'' @
               (case password (settings st) of None \<Rightarrow> ''null'' | Some p \<Rightarrow> p)))) st)"

definition set_content :: "string option \<Rightarrow> xhr \<Rightarrow> string option \<times> xhr" where
  "set_content data st =
     (if method (settings st) = Some ''GET'' \<or> method (settings st) = Some ''HEAD''
      then (None, st)
      else case or_null data of
        Some d \<Rightarrow>
          (let st1 = headers_set ''Content-Length'' (Num (length d)) st in
           (data, case map_of (headers st1) ''Content-Type'' of
                    None \<Rightarrow> headers_set ''Content-Type'' (Str ''text/plain;charset=UTF-8'') st1
                  | Some v \<Rightarrow>
                      if truthy v then st1
                      else headers_set ''Content-Type'' (Str ''text/plain;charset=UTF-8'') st1))
      | None \<Rightarrow>
          if method (settings st) = Some ''POST''
          then (data, headers_set ''Content-Length'' (Num 0) st)
          else (data, st))"

definition send_network ::
  "env \<Rightarrow> bool \<Rightarrow> string \<Rightarrow> url \<Rightarrow> string option \<Rightarrow> xhr \<Rightarrow> result option" where
  "send_network E ssl host u data st =
     (let (data1, st1) = set_content data (set_auth E (set_host ssl host u (merge_defaults st)));
          opts = \<lparr> o_host = host, o_port = host_port ssl u, o_path = pathname u @ search u,
                   o_method = method (settings st1), o_headers = headers st1,
                   o_withCredentials = withCredentials st1 \<rparr>;
          st2 = st1\<lparr> errorFlag := False \<rparr>
      in if async (settings st2) = Some True then
           (let st3 = dispatchEvent ''readystatechange'' (st2\<lparr> sendFlag := True \<rparr>);
                st4 = st3\<lparr> request := Some opts,
                           trace := trace st3 @ [Issued ssl opts] @
                             (case or_null data1 of None \<Rightarrow> [] | Some d \<Rightarrow> [Wrote d]) \<rparr>
            in Some (Inr (dispatchEvent ''loadstart'' st4)))
         else
           (case busy_wait (syncFileExists E) 0 of
              None \<Rightarrow> None
            | Some n \<Rightarrow>
                (let st3 = st2\<lparr> trace := trace st2 @ [Spawned ssl opts] \<rparr> in
                 case syncResult E of
                   Inl e \<Rightarrow> Some (Inr (handleError e st3))
                 | Inr (resp, text) \<Rightarrow>
                     Some (Inr (setState DONE
                       (st3\<lparr> response := Some resp, status := Some (statusCode resp),
                             responseText := Some text \<rparr>))))))"

text \<open>
  \<open>send(data)\<close>. \<open>None\<close> means that the call does not return: the busy wait of the
  synchronous mode found the sentinel file at every poll. In the \<open>switch\<close> the case
  \<open>"https:"\<close> ends with \<open>break\<close>, so \<open>host\<close> keeps its initial value, the empty string.
\<close>

definition send :: "env \<Rightarrow> string option \<Rightarrow> xhr \<Rightarrow> result option" where
  "send E data st =
     (if readyState st \<noteq> OPENED then
        Some (Inl (INVALID_STATE_ERR ''connection must be opened before send() is called'', st))
      else if sendFlag st then
        Some (Inl (INVALID_STATE_ERR ''send has already been called'', st))
      else case (case url (settings st) of None \<Rightarrow> None | Some s \<Rightarrow> parseURL E s) of
        None \<Rightarrow> Some (Inl (InvalidURL, st))
      | Some u \<Rightarrow>
          if protocol u = ''https:'' then send_network E True [] u data st
          else if protocol u = ''http:'' then send_network E False (hostname u) u data st
          else if protocol u = ''file:'' then Some (send_local E u st)
          else if protocol u = [] then send_network E False ''localhost'' u data st
          else Some (Inl (ProtocolNotSupported, st)))"

subsection \<open>Transport callbacks of the asynchronous mode\<close>

datatype callback =
    Response response        \<comment> \<open>\<open>responseHandler(resp)\<close>\<close>
  | Data string              \<comment> \<open>\<open>response.on("data")\<close>\<close>
  | End                      \<comment> \<open>\<open>response.on("end")\<close>\<close>
  | ResponseError js_error   \<comment> \<open>\<open>response.on("error")\<close>\<close>
  | RequestError js_error    \<comment> \<open>\<open>errorHandler\<close>\<close>
  | FileRead "js_error + string"  \<comment> \<open>the callback of \<open>fs.readFile\<close>\<close>

definition is_redirect :: "nat \<Rightarrow> bool" where
  "is_redirect c \<longleftrightarrow> c = 301 \<or> c = 302 \<or> c = 303 \<or> c = 307"

text \<open>
  \<open>responseHandler\<close> closes over \<open>ssl\<close> of the \<open>send\<close> that installed it: the follow-up
  of a redirect goes through the same \<open>doRequest\<close>.
\<close>

definition responseHandler :: "env \<Rightarrow> bool \<Rightarrow> response \<Rightarrow> xhr \<Rightarrow> result" where
  "responseHandler E ssl resp st =
     (let st1 = st\<lparr> response := Some resp \<rparr> in
      if is_redirect (statusCode resp) then
        (let loc = map_option rhstr (map_of (rheaders resp) ''location'');
             st2 = st1\<lparr> settings := (settings st1)\<lparr> url := loc \<rparr> \<rparr>
         in case (case loc of None \<Rightarrow> None | Some l \<Rightarrow> parseURL E l) of
              None \<Rightarrow> Inl (InvalidURL, st2)
            | Some u \<Rightarrow>
                (let newOptions =
                       \<lparr> o_host = hostname u, o_port = PortStr (port u), o_path = pathname u,
                         o_method = (if statusCode resp = 303 then Some ''GET''
                                     else method (settings st2)),
                         o_headers = headers st2, o_withCredentials = withCredentials st2 \<rparr>
                 in Inr (st2\<lparr> request := Some newOptions,
                              trace := trace st2 @ [Issued ssl newOptions] \<rparr>)))
      else Inr ((setState HEADERS_RECEIVED st1)\<lparr> status := Some (statusCode resp) \<rparr>))"

definition text_of :: "string option \<Rightarrow> string" where
  "text_of t = (case t of None \<Rightarrow> ''undefined'' | Some s \<Rightarrow> s)"

fun callback_step :: "env \<Rightarrow> bool \<Rightarrow> callback \<Rightarrow> xhr \<Rightarrow> result" where
  "callback_step E ssl (Response resp) st = responseHandler E ssl resp st"
| "callback_step E ssl (Data chunk) st =
     (let st1 = (if chunk \<noteq> [] then st\<lparr> responseText := Some (text_of (responseText st) @ chunk) \<rparr>
                 else st)
      in Inr (if sendFlag st1 then setState LOADING st1 else st1))"
| "callback_step E ssl End st =
     Inr (if sendFlag st then (setState DONE st)\<lparr> sendFlag := False \<rparr> else st)"
| "callback_step E ssl (ResponseError e) st = Inr (handleError e st)"
| "callback_step E ssl (RequestError e) st = Inr (handleError e st)"
| "callback_step E ssl (FileRead (Inl e)) st = Inr (handleError e st)"
| "callback_step E ssl (FileRead (Inr content)) st =
     Inr (setState DONE (st\<lparr> status := Some 200, responseText := Some content \<rparr>))"

text \<open>
  The object after a call, whether it returned or threw. An exception inside a transport
  callback does not stop later callbacks. \<open>callbacks\<close> runs any list of callbacks; the
  lists that the transport can really produce (a response, then its data, then its end)
  are among them.
\<close>

definition after :: "result \<Rightarrow> xhr" where
  "after r = (case r of Inl (e, st) \<Rightarrow> st | Inr st \<Rightarrow> st)"

definition callbacks :: "env \<Rightarrow> bool \<Rightarrow> callback list \<Rightarrow> xhr \<Rightarrow> xhr" where
  "callbacks E ssl cbs st = fold (\<lambda>cb s. after (callback_step E ssl cb s)) cbs st"

subsection \<open>Concrete objects and environments used to exercise the theorems\<close>

definition example_url :: url where
  "example_url = \<lparr> protocol = ''http:'', hostname = ''example.com'', port = [],
                    pathname = ''/'', search = [] \<rparr>"

definition moved_response :: response where
  "moved_response = \<lparr> statusCode = 302,
                       rheaders = [(''location'', One ''http://example.com/other'')] \<rparr>"

definition ok_response :: response where
  "ok_response = \<lparr> statusCode = 200,
     rheaders = [(''content-type'', One ''text/plain''), (''set-cookie'', Many [''a=1'', ''b=2''])] \<rparr>"

text \<open>
  An environment that knows five absolute URLs and, as Node's \<open>URL\<close> constructor does
  for a reference given without a base, rejects everything else, the relative
  reference \<open>/other\<close> included. The worker of the synchronous mode is still running at
  the first two polls and then reports the redirecting answer. Every file reads as
  \<open>content\<close>. The examples carry no credentials, so \<open>base64\<close> is not exercised.
\<close>

definition example_env :: env where
  "example_env = \<lparr>
     parseURL = (\<lambda>s. if s = ''http://example.com/'' then Some example_url
                     else if s = ''https://example.com/''
                       then Some (example_url\<lparr> protocol := ''https:'' \<rparr>)
                     else if s = ''http://example.com/other''
                       then Some (example_url\<lparr> pathname := ''/other'' \<rparr>)
                     else if s = ''http://example.com/other?x=1''
                       then Some (example_url\<lparr> pathname := ''/other'', search := ''?x=1'' \<rparr>)
                     else if s = ''file:///etc/hostname''
                       then Some \<lparr> protocol = ''file:'', hostname = [], port = [],
                                   pathname = ''/etc/hostname'', search = [] \<rparr>
                     else None),
     base64 = (\<lambda>s. s),
     readFileSync = (\<lambda>p. Inr ''content''),
     syncFileExists = (\<lambda>n. n < 2),
     syncResult = Inr (moved_response, ''moved'') \<rparr>"

text \<open>
  \<open>open(method, url, async)\<close> on a new object, the object after \<open>send()\<close>, and the
  object after the headers of a 200 response have arrived.
\<close>

definition opened :: "string \<Rightarrow> string \<Rightarrow> bool \<Rightarrow> xhr" where
  "opened m u a = after (open_xhr m u (Some a) None None new_xhr)"

definition sent :: "string \<Rightarrow> string \<Rightarrow> bool \<Rightarrow> xhr" where
  "sent m u a = (case send example_env None (opened m u a) of
                   Some r \<Rightarrow> after r
                 | None \<Rightarrow> opened m u a)"


definition received :: xhr where
  "received = callbacks example_env False [Response ok_response]
                (sent ''GET'' ''http://example.com/'' True)"

text \<open>A sequence of \<open>setRequestHeader\<close> calls; an exception ends it.\<close>

fun set_headers :: "(string \<times> string) list \<Rightarrow> xhr \<Rightarrow> result" where
  "set_headers [] st = Inr st"
| "set_headers (c # cs) st =
     (case setRequestHeader (fst c) (snd c) st of
        Inl e \<Rightarrow> Inl e
      | Inr st' \<Rightarrow> set_headers cs st')"

text \<open>What a call added to the trace, and the \<open>readyState\<close> assignments in a trace.\<close>

definition since :: "xhr \<Rightarrow> xhr \<Rightarrow> obs list" where
  "since st st' = drop (length (trace st)) (trace st')"

fun states_of :: "obs list \<Rightarrow> nat list" where
  "states_of [] = []"
| "states_of (ReadyState n # tr) = n # states_of tr"
| "states_of (ob # tr) = states_of tr"

text \<open>The same environment with a worker that reports the 200 answer.\<close>

definition answered_env :: env where
  "answered_env = example_env\<lparr> syncResult := Inr (ok_response, ''final'') \<rparr>"

text \<open>Two objects that differ at most in the contents of the two header tables.\<close>

definition headers_only :: "xhr \<Rightarrow> xhr \<Rightarrow> bool" where
  "headers_only st st' \<longleftrightarrow>
     st' = st\<lparr> ownHeaders := ownHeaders st', defaultHeaders := defaultHeaders st' \<rparr>"

text \<open>The agreement of the two header mappings.\<close>

abbreviation co_indexed :: "xhr \<Rightarrow> bool" where
  "co_indexed st \<equiv>
     (\<forall>h. h \<in> fst ` set (headers st) \<longleftrightarrow> map_of (headersCase st) (toLowerCase h) = Some h) \<and>
     (\<forall>k h. map_of (headersCase st) k = Some h \<longrightarrow> k = toLowerCase h)"

section \<open>Properties\<close>

lemma lowerChar_idem: "lowerChar (lowerChar c) = lowerChar c"
  unfolding lowerChar_def
  by (auto split: option.splits dest!: map_of_SomeD)

lemma toLowerCase_idem: "toLowerCase (toLowerCase s) = toLowerCase s"
  by (simp add: toLowerCase_def lowerChar_idem)


lemma allowed_methods [simp]:
  "isAllowedHttpMethod ''GET''" "isAllowedHttpMethod ''POST''"
  by (simp_all add: isAllowedHttpMethod_def forbiddenRequestMethods_def)

lemma opened_simps:
  assumes "isAllowedHttpMethod m"
  shows "readyState (opened m u a) = OPENED" "\<not> sendFlag (opened m u a)"
    "\<not> errorFlag (opened m u a)" "\<not> disableHeaderCheck (opened m u a)"
    "async (settings (opened m u a)) = Some a"
    "trace (opened m u a) = ReadyState OPENED # (if a then [Fired ''readystatechange''] else [])"
    "headers (opened m u a) = []" "headersCase (opened m u a) = []"
    "url (settings (opened m u a)) = Some u" "method (settings (opened m u a)) = Some m"
    "responseText (opened m u a) = Some []" "request (opened m u a) = None"
  using assms
  by (simp_all add: opened_def open_xhr_def new_xhr_def setState_def assign_readyState_def
      dispatchEvent_def after_def headers_def Let_def or_null_def)

lemma setState_unfold:
  "setState s st =
     (if s = LOADING \<or> readyState st \<noteq> s then
        st\<lparr> readyState := s,
            trace := trace st @ [ReadyState s]
              @ (if async (settings st) = Some True \<or> s < OPENED \<or> s = DONE
                 then [Fired ''readystatechange''] else [])
              @ (if s = DONE \<and> \<not> errorFlag st
                 then [Fired ''load'', Fired ''loadend''] else []) \<rparr>
      else st)"
  by (simp add: setState_def assign_readyState_def dispatchEvent_def Let_def)

lemma setState_fields [simp]:
  "readyState (setState s st) = s"
  "sendFlag (setState s st) = sendFlag st"
  "errorFlag (setState s st) = errorFlag st"
  "settings (setState s st) = settings st"
  "status (setState s st) = status st"
  "responseText (setState s st) = responseText st"
  "response (setState s st) = response st"
  "request (setState s st) = request st"
  "disableHeaderCheck (setState s st) = disableHeaderCheck st"
  "headersCase (setState s st) = headersCase st"
  "headers (setState s st) = headers st"
  "defaultHeaders (setState s st) = defaultHeaders st"
  by (simp_all add: setState_unfold headers_def)

lemma handleError_fields [simp]:
  "readyState (handleError e st) = DONE"
  "sendFlag (handleError e st) = sendFlag st"
  "errorFlag (handleError e st)"
  by (simp_all add: handleError_def dispatchEvent_def)

subsection \<open>What the header preparation of send leaves alone\<close>

lemma headers_only_refl [simp]: "headers_only st st"
  by (simp add: headers_only_def)

lemma headers_only_trans: "headers_only a b \<Longrightarrow> headers_only b c \<Longrightarrow> headers_only a c"
  unfolding headers_only_def
  by (metis (no_types, lifting) xhr.surjective xhr.update_convs(5) xhr.update_convs(6))

lemma headers_only_set: "headers_only st (headers_set k v st)"
  by (simp add: headers_only_def headers_set_def)

lemma headers_only_fields:
  assumes "headers_only st st'"
  shows "readyState st' = readyState st" "sendFlag st' = sendFlag st"
    "settings st' = settings st" "trace st' = trace st" "responseText st' = responseText st"
    "status st' = status st" "errorFlag st' = errorFlag st"
    "withCredentials st' = withCredentials st" "headersCase st' = headersCase st"
  by (subst assms [unfolded headers_only_def], simp)+

lemma headers_only_default_step: "headers_only st (default_step name st)"
  by (simp add: default_step_def headers_only_set split: option.splits)

lemma headers_only_fold: "headers_only st (fold default_step names st)"
proof (induction names arbitrary: st)
  case Nil
  show ?case by simp
next
  case (Cons n ns)
  show ?case
    using headers_only_trans [OF headers_only_default_step Cons.IH] by simp
qed

lemma headers_only_merge: "headers_only st (merge_defaults st)"
  by (simp add: merge_defaults_def headers_only_fold)

lemma headers_only_set2: "headers_only st (headers_set k v (headers_set k' v' st))"
  by (rule headers_only_trans [OF headers_only_set headers_only_set])

lemma headers_only_host: "headers_only st (set_host ssl host u st)"
  by (simp add: set_host_def Let_def headers_append_def headers_only_set headers_only_set2)

lemma headers_only_auth: "headers_only st (set_auth E st)"
  by (simp add: set_auth_def headers_only_set split: option.splits)

lemma headers_only_content: "headers_only st (snd (set_content data st))"
  by (simp add: set_content_def Let_def headers_only_set headers_only_set2
      split: option.splits)

lemma headers_only_prepare:
  "headers_only st (snd (set_content data (set_auth E (set_host ssl host u (merge_defaults st)))))"
  by (rule headers_only_trans [OF headers_only_merge
        headers_only_trans [OF headers_only_host
          headers_only_trans [OF headers_only_auth headers_only_content]]])

subsection \<open>The state transition function\<close>

text \<open>
  Claim C1. \<open>setState(newState)\<close> changes the object only if \<open>newState\<close> is LOADING or
  differs from the current \<open>readyState\<close>. An accepted transition assigns \<open>readyState\<close>,
  then fires \<open>readystatechange\<close> exactly when the async flag is set or the new state is
  below OPENED or is DONE, and then, when the new state is DONE and the error flag is
  false, fires \<open>load\<close> followed by \<open>loadend\<close>. Nothing else changes.
\<close>

theorem setState_transition:
  "(s \<noteq> LOADING \<and> readyState st = s \<longrightarrow> setState s st = st) \<and>
   (s = LOADING \<or> readyState st \<noteq> s \<longrightarrow>
      readyState (setState s st) = s \<and>
      since st (setState s st) =
        [ReadyState s]
        @ (if async (settings st) = Some True \<or> s < OPENED \<or> s = DONE
           then [Fired ''readystatechange''] else [])
        @ (if s = DONE \<and> \<not> errorFlag st then [Fired ''load'', Fired ''loadend''] else []) \<and>
      setState s st = st\<lparr> readyState := s, trace := trace st @ since st (setState s st) \<rparr>)"
  by (simp add: setState_unfold since_def)

theorem setState_transition_witness:
  "setState OPENED (opened ''GET'' ''http://example.com/'' True)
     = opened ''GET'' ''http://example.com/'' True \<and>
   since (opened ''GET'' ''http://example.com/'' True)
         (setState DONE (opened ''GET'' ''http://example.com/'' True)) =
     [ReadyState DONE, Fired ''readystatechange'', Fired ''load'', Fired ''loadend'']"
  using setState_transition [of OPENED "opened ''GET'' ''http://example.com/'' True"]
    setState_transition [of DONE "opened ''GET'' ''http://example.com/'' True"]
  by (simp add: opened_simps)

subsection \<open>open\<close>

text \<open>
  Claim C10. \<open>open\<close> with a method of the forbidden set (TRACE, TRACK, CONNECT) throws
  the security error, and what it leaves behind is the object as it was with the error
  flag reset to false: \<open>readyState\<close>, \<open>settings\<close> and every other field are untouched.
\<close>

theorem open_forbidden_method:
  "m \<in> set forbiddenRequestMethods \<Longrightarrow>
     open_xhr m u a usr pw st = Inl (SecurityError, st\<lparr> errorFlag := False \<rparr>)"
  by (simp add: open_xhr_def isAllowedHttpMethod_def)

theorem open_forbidden_method_witness:
  "''TRACE'' \<in> set forbiddenRequestMethods \<and>
   errorFlag (abort (opened ''GET'' ''http://example.com/'' True)) \<and>
   open_xhr ''TRACE'' ''http://example.com/'' None None None
       (abort (opened ''GET'' ''http://example.com/'' True))
     = Inl (SecurityError,
            (abort (opened ''GET'' ''http://example.com/'' True))\<lparr> errorFlag := False \<rparr>)"
proof -
  have m: "''TRACE'' \<in> set forbiddenRequestMethods"
    by (simp add: forbiddenRequestMethods_def)
  have e: "errorFlag (abort (opened ''GET'' ''http://example.com/'' True))"
    by (simp add: abort_def opened_simps dispatchEvent_def assign_readyState_def Let_def)
  show ?thesis
    using m e open_forbidden_method [OF m] by simp
qed

subsection \<open>Forbidden request headers\<close>

text \<open>
  Claim C6. For a header name whose lower-case form is in the forbidden set, with the
  object OPENED, the send flag false and header checking enabled, \<open>setRequestHeader\<close>
  returns normally; the only effect is the warning. In particular both header mappings
  are what they were.
\<close>

theorem forbidden_header_ignored:
  assumes "toLowerCase header \<in> set forbiddenRequestHeaders"
    and "readyState st = OPENED" and "\<not> sendFlag st" and "\<not> disableHeaderCheck st"
  shows "setRequestHeader header v st =
           Inr (st\<lparr> trace := trace st @ [Warned (unsafe_header_warning header)] \<rparr>)
         \<and> headers (after (setRequestHeader header v st)) = headers st
         \<and> headersCase (after (setRequestHeader header v st)) = headersCase st"
  using assms
  by (simp add: setRequestHeader_def isAllowedHttpHeader_def after_def headers_def)

theorem forbidden_header_ignored_witness:
  "toLowerCase ''Content-Length'' \<in> set forbiddenRequestHeaders \<and>
   readyState (opened ''GET'' ''http://example.com/'' True) = OPENED \<and>
   \<not> sendFlag (opened ''GET'' ''http://example.com/'' True) \<and>
   \<not> disableHeaderCheck (opened ''GET'' ''http://example.com/'' True) \<and>
   setRequestHeader ''Content-Length'' ''5'' (opened ''GET'' ''http://example.com/'' True) =
     Inr ((opened ''GET'' ''http://example.com/'' True)
            \<lparr> trace := [ReadyState OPENED, Fired ''readystatechange'',
                        Warned (unsafe_header_warning ''Content-Length'')] \<rparr>)"
proof -
  have h: "toLowerCase ''Content-Length'' \<in> set forbiddenRequestHeaders"
    by (simp add: toLowerCase_def lowerChar_def forbiddenRequestHeaders_def)
  show ?thesis
    using h forbidden_header_ignored
      [OF h, of "opened ''GET'' ''http://example.com/'' True" "''5''"]
    by (simp add: opened_simps)
qed

subsection \<open>setRequestHeader once the send flag is raised\<close>

lemma callback_keeps_in_flight:
  assumes "readyState st = OPENED \<longrightarrow> sendFlag st"
  shows "readyState (after (callback_step E ssl cb st)) = OPENED
           \<longrightarrow> sendFlag (after (callback_step E ssl cb st))"
proof (cases cb)
  case (Response resp)
  then show ?thesis using assms
    by (auto simp add: after_def responseHandler_def Let_def split: option.splits)
next
  case (FileRead r)
  then show ?thesis using assms by (cases r) (simp_all add: after_def)
qed (use assms in \<open>auto simp add: after_def Let_def\<close>)

lemma callbacks_keep_in_flight:
  "(readyState st = OPENED \<longrightarrow> sendFlag st) \<Longrightarrow>
   readyState (callbacks E ssl cbs st) = OPENED \<longrightarrow> sendFlag (callbacks E ssl cbs st)"
  unfolding callbacks_def
proof (induction cbs arbitrary: st)
  case Nil
  then show ?case by simp
next
  case (Cons cb cbs)
  show ?case
    using Cons.IH [OF callback_keeps_in_flight [OF Cons.prems]] by simp
qed

text \<open>
  Claim C2 says that once \<open>send\<close> has raised the send flag, \<open>setRequestHeader\<close> throws
  the invalid-state error for every header name, the forbidden ones included. The
  code tests the name before it tests the send flag: on the object that \<open>send\<close> leaves
  behind, the forbidden name \<open>Host\<close> is refused with a warning and the call returns.
\<close>

theorem setRequestHeader_after_send_counterexample:
  "send example_env None (opened ''GET'' ''http://example.com/'' True)
     = Some (Inr (sent ''GET'' ''http://example.com/'' True)) \<and>
   sendFlag (sent ''GET'' ''http://example.com/'' True) \<and>
   toLowerCase ''Host'' \<in> set forbiddenRequestHeaders \<and>
   setRequestHeader ''Host'' ''example.org'' (sent ''GET'' ''http://example.com/'' True) =
     Inr ((sent ''GET'' ''http://example.com/'' True)
            \<lparr> trace := trace (sent ''GET'' ''http://example.com/'' True)
                        @ [Warned (unsafe_header_warning ''Host'')] \<rparr>)"
  by code_simp

text \<open>
  Claim C2, amended. Take the object as an asynchronous network \<open>send\<close> leaves it
  (OPENED, send flag raised) and let any transport callbacks run. Then
  \<open>setRequestHeader\<close> throws the invalid-state error, with one exception: while the
  object is still OPENED, a name that the header check refuses (forbidden or empty,
  with checking enabled) only produces the warning, and the call returns with the
  header mappings untouched.
\<close>

theorem setRequestHeader_after_send:
  assumes "readyState st = OPENED" and "sendFlag st"
  shows "let st' = callbacks E ssl cbs st in
     (readyState st' = OPENED \<and> \<not> isAllowedHttpHeader st' header \<longrightarrow>
        setRequestHeader header v st' =
          Inr (st'\<lparr> trace := trace st' @ [Warned (unsafe_header_warning header)] \<rparr>)) \<and>
     (readyState st' \<noteq> OPENED \<or> isAllowedHttpHeader st' header \<longrightarrow>
        (\<exists>msg. setRequestHeader header v st' = Inl (INVALID_STATE_ERR msg, st')))"
  using callbacks_keep_in_flight [of st E ssl cbs] assms
  by (auto simp add: Let_def setRequestHeader_def)

theorem setRequestHeader_after_send_witness:
  "readyState (sent ''GET'' ''http://example.com/'' True) = OPENED \<and>
   sendFlag (sent ''GET'' ''http://example.com/'' True) \<and>
   setRequestHeader ''X-Custom'' ''1'' (sent ''GET'' ''http://example.com/'' True) =
     Inl (INVALID_STATE_ERR ''send flag is true'', sent ''GET'' ''http://example.com/'' True) \<and>
   isl (setRequestHeader ''Host'' ''example.org''
         (callbacks example_env False [Response ok_response, Data ''final'', End]
            (sent ''GET'' ''http://example.com/'' True)))"
proof -
  have a: "readyState (sent ''GET'' ''http://example.com/'' True) = OPENED" by code_simp
  have b: "sendFlag (sent ''GET'' ''http://example.com/'' True)" by code_simp
  have c: "isAllowedHttpHeader (sent ''GET'' ''http://example.com/'' True) ''X-Custom''"
    by code_simp
  have d: "readyState (callbacks example_env False [Response ok_response, Data ''final'', End]
             (sent ''GET'' ''http://example.com/'' True)) = DONE"
    by code_simp
  have e: "setRequestHeader ''X-Custom'' ''1'' (sent ''GET'' ''http://example.com/'' True) =
     Inl (INVALID_STATE_ERR ''send flag is true'', sent ''GET'' ''http://example.com/'' True)"
    by code_simp
  show ?thesis
    using a b c d e
      setRequestHeader_after_send [OF a b, of example_env False "[]" "''X-Custom''" "''1''"]
      setRequestHeader_after_send [OF a b, of example_env False
        "[Response ok_response, Data ''final'', End]" "''Host''" "''example.org''"]
    by (auto simp add: Let_def callbacks_def)
qed

subsection \<open>Redirects\<close>




text \<open>Without a \<open>Location\<close> header the handler throws and nothing is issued.\<close>

lemma redirect_without_location:
  assumes "is_redirect (statusCode resp)" and "map_of (rheaders resp) ''location'' = None"
  shows "isl (responseHandler E ssl resp st) \<and>
         since st (after (responseHandler E ssl resp st)) = []"
  using assms by (simp add: responseHandler_def Let_def after_def since_def)

subsection \<open>getAllResponseHeaders\<close>

lemma join_lines:
  "take (length (concat (map (\<lambda>p. f p @ CRLF) xs)) - 2) (concat (map (\<lambda>p. f p @ CRLF) xs))
     = join CRLF (map f xs)"
proof (induction xs rule: induct_list012)
  case 1
  show ?case by simp
next
  case (2 x)
  show ?case by (simp add: CRLF_def)
next
  case (3 x y zs)
  have "2 \<le> length (concat (map (\<lambda>p. f p @ CRLF) (y # zs)))"
    by (simp add: CRLF_def)
  with 3(2) show ?case
    by (simp add: CRLF_def Suc_diff_le)
qed

text \<open>
  What the serialisation yields when a response is recorded: with \<open>readyState\<close> at least
  HEADERS_RECEIVED and the error flag false, one \<open>name: value\<close> line for every response
  header in the order of the response, none left out (so \<open>set-cookie\<close> and \<open>set-cookie2\<close>
  are among them), the lines separated by CR LF and no CR LF after the last one.
\<close>

lemma all_response_headers:
  assumes "HEADERS_RECEIVED \<le> readyState st" and "\<not> errorFlag st"
    and "response st = Some r"
  shows "getAllResponseHeaders st =
           Inr (join CRLF (map (\<lambda>p. fst p @ '': '' @ rhstr (snd p)) (rheaders r)))"
proof -
  have "header_line = (\<lambda>p. (fst p @ '': '' @ rhstr (snd p)) @ CRLF)"
    by (simp add: header_line_def fun_eq_iff)
  then show ?thesis
    using assms join_lines [of "\<lambda>p. fst p @ '': '' @ rhstr (snd p)" "rheaders r"]
    by (simp add: getAllResponseHeaders_def Let_def)
qed

lemma all_response_headers_example:
  "HEADERS_RECEIVED \<le> readyState received \<and> \<not> errorFlag received \<and>
   response received = Some ok_response \<and>
   getAllResponseHeaders received =
     Inr (''content-type: text/plain'' @ CRLF @ ''set-cookie: a=1,b=2'')"
proof -
  have a: "HEADERS_RECEIVED \<le> readyState received" by code_simp
  have b: "\<not> errorFlag received" by code_simp
  have c: "response received = Some ok_response" by code_simp
  show ?thesis
    using a b c all_response_headers [OF a b c]
    by (simp add: ok_response_def)
qed

text \<open>
  A local-file load reaches DONE without recording a response; the call then fails on
  \<open>response.headers\<close>.
\<close>

lemma all_response_headers_no_response:
  assumes "HEADERS_RECEIVED \<le> readyState st" and "\<not> errorFlag st" and "response st = None"
  shows "getAllResponseHeaders st = Inl (TypeError, st)"
  using assms by (simp add: getAllResponseHeaders_def)

text \<open>
  Claim C9 says that with \<open>readyState\<close> at least HEADERS_RECEIVED and the error flag
  false \<open>getAllResponseHeaders\<close> returns the response headers. After the synchronous
  load of a local file the object is DONE, the error flag is false and no response was
  recorded: there are no headers to return, and the call throws the \<open>TypeError\<close> of
  \<open>response.headers\<close> instead of returning the empty string. \<open>getResponseHeader\<close> tests
  \<open>response\<close> before it reads it; this function does not.
\<close>

theorem all_response_headers_local_file:
  "send example_env None (opened ''GET'' ''file:///etc/hostname'' False)
     = Some (Inr (sent ''GET'' ''file:///etc/hostname'' False)) \<and>
   readyState (sent ''GET'' ''file:///etc/hostname'' False) = DONE \<and>
   \<not> errorFlag (sent ''GET'' ''file:///etc/hostname'' False) \<and>
   response (sent ''GET'' ''file:///etc/hostname'' False) = None \<and>
   getAllResponseHeaders (sent ''GET'' ''file:///etc/hostname'' False)
     = Inl (TypeError, sent ''GET'' ''file:///etc/hostname'' False)"
  by code_simp


subsection \<open>The two header mappings\<close>

lemma toLowerCase_Nil [simp]: "toLowerCase s = [] \<longleftrightarrow> s = []" "toLowerCase [] = []"
  by (simp_all add: toLowerCase_def)

lemma headers_set_keys:
  "fst ` set (headers (headers_set k v st)) = insert k (fst ` set (headers st))"
  by (simp add: headers_set_def headers_def dom_update)

lemma headers_set_fields [simp]:
  "headersCase (headers_set k v st) = headersCase st"
  "disableHeaderCheck (headers_set k v st) = disableHeaderCheck st"
  "readyState (headers_set k v st) = readyState st"
  "sendFlag (headers_set k v st) = sendFlag st"
  "settings (headers_set k v st) = settings st"
  "trace (headers_set k v st) = trace st"
  "errorFlag (headers_set k v st) = errorFlag st"
  "headersShared (headers_set k v st) = headersShared st"
  by (simp_all add: headers_set_def)

lemma setRequestHeader_step:
  assumes "setRequestHeader n v st = Inr st'" and "co_indexed st"
  shows "co_indexed st'"
    and "disableHeaderCheck st' = disableHeaderCheck st"
    and "map_of (headersCase st') k =
           (case map_of (headersCase st) k of
              Some h \<Rightarrow> Some h
            | None \<Rightarrow> if isAllowedHttpHeader st n \<and> toLowerCase n = k then Some n else None)"
proof -
  show "disableHeaderCheck st' = disableHeaderCheck st"
    using assms(1) by (auto simp add: setRequestHeader_def Let_def split: if_splits)
  show "co_indexed st'"
    and "map_of (headersCase st') k =
           (case map_of (headersCase st) k of
              Some h \<Rightarrow> Some h
            | None \<Rightarrow> if isAllowedHttpHeader st n \<and> toLowerCase n = k then Some n else None)"
  proof (atomize (full), cases "isAllowedHttpHeader st n")
    case False
    then have "headers st' = headers st" "headersCase st' = headersCase st"
      using assms(1) by (auto simp add: setRequestHeader_def headers_def split: if_splits)
    with assms(2) False show "co_indexed st' \<and> map_of (headersCase st') k =
           (case map_of (headersCase st) k of
              Some h \<Rightarrow> Some h
            | None \<Rightarrow> if isAllowedHttpHeader st n \<and> toLowerCase n = k then Some n else None)"
      by (simp split: option.splits)
  next
    case True
    define h where "h = (case map_of (headersCase st) (toLowerCase n) of
                           None \<Rightarrow> n | Some c \<Rightarrow> if c \<noteq> [] then c else n)"
    have low: "toLowerCase h = toLowerCase n"
      using assms(2) by (auto simp add: h_def split: option.splits)
    have h_alt: "h = c" if c: "map_of (headersCase st) (toLowerCase n) = Some c" for c
    proof (cases "c = []")
      case True
      from assms(2) c have "toLowerCase n = toLowerCase c" by blast
      with True have "n = []" by simp
      with True c show ?thesis by (simp add: h_def)
    next
      case False
      with c show ?thesis by (simp add: h_def)
    qed
    obtain val where st': "st' = headers_set h val
        (st\<lparr> headersCase := AList.update (toLowerCase h) h (headersCase st) \<rparr>)"
      using assms(1) True
      by (auto simp add: setRequestHeader_def Let_def h_def [symmetric] split: if_splits)
    have keys: "fst ` set (headers st') = insert h (fst ` set (headers st))"
      by (simp add: st' headers_set_keys) (simp add: headers_def)
    have hc: "map_of (headersCase st') = (map_of (headersCase st))(toLowerCase n \<mapsto> h)"
      by (simp add: st' update_conv' low)
    have 1: "\<forall>k h'. map_of (headersCase st') k = Some h' \<longrightarrow> k = toLowerCase h'"
      using assms(2) low by (auto simp add: hc)
    have 2: "x \<in> fst ` set (headers st') \<longleftrightarrow> map_of (headersCase st') (toLowerCase x) = Some x" for x
    proof (cases "toLowerCase x = toLowerCase n")
      case True
      show ?thesis
      proof (cases "x = h")
        case True
        then show ?thesis by (simp add: keys hc low)
      next
        case False
        have "x \<notin> fst ` set (headers st)"
        proof
          assume "x \<in> fst ` set (headers st)"
          then have "map_of (headersCase st) (toLowerCase n) = Some x"
            using assms(2) \<open>toLowerCase x = toLowerCase n\<close> by metis
          then show False using h_alt False by simp
        qed
        then show ?thesis using False True by (simp add: keys hc)
      qed
    next
      case False
      then have "x \<noteq> h" using low by auto
      then show ?thesis using False assms(2) by (simp add: keys hc)
    qed
    have 3: "map_of (headersCase st') k =
           (case map_of (headersCase st) k of
              Some h \<Rightarrow> Some h
            | None \<Rightarrow> if isAllowedHttpHeader st n \<and> toLowerCase n = k then Some n else None)"
      using True h_alt by (auto simp add: hc h_def split: option.splits)
    from 1 2 3 show "co_indexed st' \<and> map_of (headersCase st') k =
           (case map_of (headersCase st) k of
              Some h \<Rightarrow> Some h
            | None \<Rightarrow> if isAllowedHttpHeader st n \<and> toLowerCase n = k then Some n else None)"
      by blast
  qed
qed

lemma set_headers_tables:
  assumes "set_headers calls st = Inr st'" and "co_indexed st"
  shows "co_indexed st' \<and>
         (\<forall>k. map_of (headersCase st') k =
            (case map_of (headersCase st) k of
               Some h \<Rightarrow> Some h
             | None \<Rightarrow> map_option fst
                 (find (\<lambda>c. isAllowedHttpHeader st (fst c) \<and> toLowerCase (fst c) = k) calls)))"
  using assms
proof (induction calls arbitrary: st)
  case Nil
  then show ?case by (simp split: option.splits)
next
  case (Cons c calls)
  from Cons.prems(1) obtain st1 where
    1: "setRequestHeader (fst c) (snd c) st = Inr st1" and 2: "set_headers calls st1 = Inr st'"
    by (auto split: sum.splits)
  note step = setRequestHeader_step [OF 1 Cons.prems(2)]
  have allowed: "isAllowedHttpHeader st1 = isAllowedHttpHeader st"
    using step(2) by (simp add: isAllowedHttpHeader_def fun_eq_iff)
  note ih = Cons.IH [OF 2 step(1)]
  have "map_of (headersCase st') k =
          (case map_of (headersCase st) k of
             Some h \<Rightarrow> Some h
           | None \<Rightarrow> map_option fst
               (find (\<lambda>c. isAllowedHttpHeader st (fst c) \<and> toLowerCase (fst c) = k) (c # calls)))"
    for k
    unfolding ih [THEN conjunct2, rule_format, of k] step(3) [of k] allowed
    by (simp split: option.splits)
  with ih [THEN conjunct1] show ?case by simp
qed

text \<open>
  Claim C5, amended. Start from empty header tables, as on a new object, and make any
  sequence of \<open>setRequestHeader\<close> calls none of which throws. Then the two mappings are
  co-indexed: a name is a key of \<open>headers\<close> exactly if the lower-case lookup maps its
  lower-case form to it, and every entry of the lookup sits under the lower-case form
  of its value. The lookup resolves a lower-case key to the casing of the first call
  that registered the header (the first call of the sequence with an accepted name of
  that lower-case form), not to the most recent one.
\<close>

theorem header_tables_co_indexed:
  assumes "headers st = []" and "headersCase st = []"
    and "set_headers calls st = Inr st'"
  shows "(\<forall>h. h \<in> fst ` set (headers st') \<longleftrightarrow>
              map_of (headersCase st') (toLowerCase h) = Some h) \<and>
         (\<forall>k h. map_of (headersCase st') k = Some h \<longrightarrow> k = toLowerCase h) \<and>
         (\<forall>k. map_of (headersCase st') k =
              map_option fst
                (find (\<lambda>c. isAllowedHttpHeader st (fst c) \<and> toLowerCase (fst c) = k) calls))"
proof -
  have "co_indexed st"
    by (simp add: assms(1,2))
  note r = set_headers_tables [OF assms(3) this]
  have "map_of (headersCase st') k =
          map_option fst
            (find (\<lambda>c. isAllowedHttpHeader st (fst c) \<and> toLowerCase (fst c) = k) calls)" for k
    unfolding r [THEN conjunct2, rule_format, of k] assms(2) by simp
  then have "\<forall>k. map_of (headersCase st') k =
          map_option fst
            (find (\<lambda>c. isAllowedHttpHeader st (fst c) \<and> toLowerCase (fst c) = k) calls)" ..
  with r [THEN conjunct1, THEN conjunct1] r [THEN conjunct1, THEN conjunct2]
  show ?thesis by (intro conjI)
qed

text \<open>
  Claim C5 says that a lower-case key resolves to the casing most recently registered.
  After \<open>setRequestHeader("X-Foo", "1")\<close> and \<open>setRequestHeader("x-foo", "2")\<close> the key
  \<open>x-foo\<close> still resolves to \<open>X-Foo\<close>, the first casing, under which both values are
  stored.
\<close>

theorem header_casing_counterexample:
  "set_headers [(''X-Foo'', ''1''), (''x-foo'', ''2'')] (opened ''GET'' ''http://example.com/'' True)
     = Inr (after (set_headers [(''X-Foo'', ''1''), (''x-foo'', ''2'')]
                     (opened ''GET'' ''http://example.com/'' True))) \<and>
   map_of (headersCase (after (set_headers [(''X-Foo'', ''1''), (''x-foo'', ''2'')]
                                 (opened ''GET'' ''http://example.com/'' True)))) ''x-foo''
     = Some ''X-Foo'' \<and>
   headers (after (set_headers [(''X-Foo'', ''1''), (''x-foo'', ''2'')]
                     (opened ''GET'' ''http://example.com/'' True)))
     = [(''X-Foo'', Str ''1, 2'')]"
  by code_simp

theorem header_tables_co_indexed_witness:
  "headers (opened ''GET'' ''http://example.com/'' True) = [] \<and>
   headersCase (opened ''GET'' ''http://example.com/'' True) = [] \<and>
   set_headers [(''Host'', ''h''), (''X-Foo'', ''1''), (''x-foo'', ''2'')]
       (opened ''GET'' ''http://example.com/'' True)
     = Inr (after (set_headers [(''Host'', ''h''), (''X-Foo'', ''1''), (''x-foo'', ''2'')]
                     (opened ''GET'' ''http://example.com/'' True))) \<and>
   map_of (headersCase (after (set_headers [(''Host'', ''h''), (''X-Foo'', ''1''), (''x-foo'', ''2'')]
                                 (opened ''GET'' ''http://example.com/'' True)))) ''x-foo''
     = Some ''X-Foo'' \<and>
   map_of (headersCase (after (set_headers [(''Host'', ''h''), (''X-Foo'', ''1''), (''x-foo'', ''2'')]
                                 (opened ''GET'' ''http://example.com/'' True)))) ''host''
     = None \<and>
   ''X-Foo'' \<in> fst ` set (headers (after (set_headers
                  [(''Host'', ''h''), (''X-Foo'', ''1''), (''x-foo'', ''2'')]
                  (opened ''GET'' ''http://example.com/'' True))))"
proof -
  let ?st = "opened ''GET'' ''http://example.com/'' True"
  let ?calls = "[(''Host'', ''h''), (''X-Foo'', ''1''), (''x-foo'', ''2'')]"
  have a: "headers ?st = []" and b: "headersCase ?st = []"
    by (simp_all add: opened_simps)
  have c: "set_headers ?calls ?st = Inr (after (set_headers ?calls ?st))"
    by code_simp
  note t = header_tables_co_indexed [OF a b c]
  have low: "toLowerCase ''Host'' = ''host''" "toLowerCase ''X-Foo'' = ''x-foo''"
    "toLowerCase ''x-foo'' = ''x-foo''"
    by (simp_all add: toLowerCase_def lowerChar_def)
  have d: "map_of (headersCase (after (set_headers ?calls ?st))) ''x-foo'' = Some ''X-Foo''"
    unfolding t [THEN conjunct2, THEN conjunct2, rule_format, of "''x-foo''"]
    by (simp add: low isAllowedHttpHeader_def opened_simps forbiddenRequestHeaders_def)
  have e: "map_of (headersCase (after (set_headers ?calls ?st))) ''host'' = None"
    unfolding t [THEN conjunct2, THEN conjunct2, rule_format, of "''host''"]
    by (simp add: low isAllowedHttpHeader_def opened_simps forbiddenRequestHeaders_def)
  have f: "''X-Foo'' \<in> fst ` set (headers (after (set_headers ?calls ?st)))"
    unfolding t [THEN conjunct1, rule_format, of "''X-Foo''"] low by (rule d)
  from a b c d e f show ?thesis by (intro conjI)
qed

subsection \<open>abort while a request is in flight\<close>









subsection \<open>The Host header\<close>

text \<open>
  What an asynchronous \<open>send\<close> stores under \<open>Host\<close> for an http or https URL: the host
  name for http and nothing for https, followed by a colon and the port when the URL
  reports one. (Node's URL reports a port only when it is not the default of the scheme.)
\<close>

lemma headers_set_lookup:
  "map_of (headers (headers_set k v st)) k' = (if k' = k then Some v else map_of (headers st) k')"
  by (simp add: headers_set_def headers_def update_conv')

lemma set_host_lookup:
  "map_of (headers (set_host ssl host u st)) ''Host''
     = Some (Str (host @ (if port u = [] then [] else '':'' @ port u)))"
  by (simp add: set_host_def Let_def host_port_def headers_append_def headers_set_lookup)

lemma set_auth_lookup:
  "map_of (headers (set_auth E st)) ''Host'' = map_of (headers st) ''Host''"
  by (simp add: set_auth_def headers_set_lookup split: option.splits)

lemma set_content_lookup:
  "map_of (headers (snd (set_content data st))) ''Host'' = map_of (headers st) ''Host''"
  by (simp add: set_content_def Let_def headers_set_lookup split: option.splits)

lemma send_network_host:
  assumes "async (settings st) = Some True"
  shows "\<exists>st'. send_network E ssl host u data st = Some (Inr st') \<and>
           map_of (headers st') ''Host''
             = Some (Str (host @ (if port u = [] then [] else '':'' @ port u)))"
proof -
  let ?p = "set_content data (set_auth E (set_host ssl host u (merge_defaults st)))"
  have h: "headers_only st (snd ?p)" by (rule headers_only_prepare)
  have l: "map_of (headers (snd ?p)) ''Host''
             = Some (Str (host @ (if port u = [] then [] else '':'' @ port u)))"
    by (simp add: set_content_lookup set_auth_lookup set_host_lookup)
  obtain d1 st1 where p: "?p = (d1, st1)" by (cases ?p)
  with l have l1: "map_of (headers st1) ''Host''
             = Some (Str (host @ (if port u = [] then [] else '':'' @ port u)))"
    by simp
  have a: "async (settings st1) = Some True"
    using headers_only_fields(3) [OF h] p assms by simp
  let ?st' = "after (the (send_network E ssl host u data st))"
  have "\<exists>st'. send_network E ssl host u data st = Some (Inr st') \<and> headers st' = headers st1"
    using a by (simp add: send_network_def p Let_def dispatchEvent_def headers_def)
  with l1 show ?thesis by auto
qed

lemma send_host_header:
  assumes "readyState st = OPENED" and "\<not> sendFlag st"
    and "async (settings st) = Some True"
    and "url (settings st) = Some s" and "parseURL E s = Some u"
    and "protocol u = ''http:'' \<or> protocol u = ''https:''"
  shows "\<exists>st'. send E data st = Some (Inr st') \<and>
           map_of (headers st') ''Host''
             = Some (Str ((if protocol u = ''https:'' then [] else hostname u)
                          @ (if port u = [] then [] else '':'' @ port u)))"
proof (cases "protocol u = ''https:''")
  case True
  then have "send E data st = send_network E True [] u data st"
    using assms by (simp add: send_def)
  with send_network_host [OF assms(3), of E True "[]" u data] True show ?thesis by simp
next
  case False
  with assms(6) have "send E data st = send_network E False (hostname u) u data st"
    using assms by (simp add: send_def)
  with send_network_host [OF assms(3), of E False "hostname u" u data] False show ?thesis by simp
qed

text \<open>
  Claim C7 says that \<open>send\<close> sets \<open>Host\<close> to the host name of every http or https URL.
  For \<open>https://example.com/\<close> the code sends the empty string, as header and as
  \<open>options.host\<close>: the \<open>switch\<close> leaves the case \<open>"https:"\<close> through \<open>break\<close> before
  \<open>host = url.hostname\<close>, against the comment at that place. The http URL gets its
  host name.
\<close>

theorem send_https_host_header:
  "parseURL example_env ''https://example.com/''
     = Some \<lparr> protocol = ''https:'', hostname = ''example.com'', port = [],
              pathname = ''/'', search = [] \<rparr> \<and>
   send example_env None (opened ''GET'' ''https://example.com/'' True)
     = Some (Inr (sent ''GET'' ''https://example.com/'' True)) \<and>
   map_of (headers (sent ''GET'' ''https://example.com/'' True)) ''Host'' = Some (Str []) \<and>
   map_option o_host (request (sent ''GET'' ''https://example.com/'' True)) = Some [] \<and>
   map_of (headers (sent ''GET'' ''http://example.com/'' True)) ''Host''
     = Some (Str ''example.com'')"
  by code_simp

subsection \<open>The synchronous mode\<close>

lemma busy_wait_returns: "\<not> ex (i + k) \<Longrightarrow> \<exists>m. busy_wait ex i = Some m"
proof (induction k arbitrary: i)
  case 0
  then show ?case by (subst busy_wait.simps) simp
next
  case (Suc k)
  show ?case
  proof (cases "ex i")
    case True
    from Suc.prems have "\<not> ex (Suc i + k)" by simp
    from Suc.IH [OF this] True show ?thesis by (subst busy_wait.simps) simp
  next
    case False
    then show ?thesis by (subst busy_wait.simps) simp
  qed
qed

lemma send_network_sync:
  assumes "async (settings st) \<noteq> Some True" and "\<not> syncFileExists E n"
    and "syncResult E = Inr (resp, body)"
  shows "\<exists>st1 opts. headers_only st st1 \<and>
           send_network E ssl host u data st =
             Some (Inr (setState DONE
               (st1\<lparr> errorFlag := False, trace := trace st @ [Spawned ssl opts],
                     response := Some resp, status := Some (statusCode resp),
                     responseText := Some body \<rparr>)))"
proof -
  obtain d1 st1 where p: "set_content data (set_auth E (set_host ssl host u (merge_defaults st))) = (d1, st1)"
    by (cases "set_content data (set_auth E (set_host ssl host u (merge_defaults st)))")
  have h: "headers_only st st1"
    using headers_only_prepare [of st data E ssl host u] p by simp
  note f = headers_only_fields [OF h]
  from busy_wait_returns [of "syncFileExists E" 0 n] assms(2)
  obtain m where m: "busy_wait (syncFileExists E) 0 = Some m" by auto
  let ?opts = "\<lparr> o_host = host, o_port = host_port ssl u, o_path = pathname u @ search u,
                  o_method = method (settings st1), o_headers = headers st1,
                  o_withCredentials = withCredentials st1 \<rparr>"
  have "send_network E ssl host u data st =
             Some (Inr (setState DONE
               (st1\<lparr> errorFlag := False, trace := trace st @ [Spawned ssl ?opts],
                     response := Some resp, status := Some (statusCode resp),
                     responseText := Some body \<rparr>)))"
    using assms(1,3) m by (simp add: send_network_def p f Let_def)
  with h show ?thesis by blast
qed

lemma send_network_async:
  assumes "async (settings st) = Some True"
  shows "\<exists>st1 req evs. headers_only st st1 \<and>
           send_network E ssl host u data st =
             Some (Inr (st1\<lparr> errorFlag := False, sendFlag := True, request := req,
                              trace := trace st @ evs \<rparr>))"
proof -
  obtain d1 st1 where p: "set_content data (set_auth E (set_host ssl host u (merge_defaults st))) = (d1, st1)"
    by (cases "set_content data (set_auth E (set_host ssl host u (merge_defaults st)))")
  have h: "headers_only st st1"
    using headers_only_prepare [of st data E ssl host u] p by simp
  note f = headers_only_fields [OF h]
  let ?opts = "\<lparr> o_host = host, o_port = host_port ssl u, o_path = pathname u @ search u,
                  o_method = method (settings st1), o_headers = headers st1,
                  o_withCredentials = withCredentials st1 \<rparr>"
  let ?evs = "[Fired ''readystatechange'', Issued ssl ?opts]
              @ (case or_null d1 of None \<Rightarrow> [] | Some d \<Rightarrow> [Wrote d])
              @ [Fired ''loadstart'']"
  have "send_network E ssl host u data st =
             Some (Inr (st1\<lparr> errorFlag := False, sendFlag := True, request := Some ?opts,
                              trace := trace st @ ?evs \<rparr>))"
    using assms by (simp add: send_network_def p f Let_def dispatchEvent_def)
  with h show ?thesis by blast
qed


lemma callbacks_append:
  "callbacks E ssl (xs @ ys) st = callbacks E ssl ys (callbacks E ssl xs st)"
  by (simp add: callbacks_def)

lemma callbacks_Cons:
  "callbacks E ssl (cb # cbs) st = callbacks E ssl cbs (after (callback_step E ssl cb st))"
  by (simp add: callbacks_def)

lemma callbacks_Nil [simp]: "callbacks E ssl [] st = st"
  by (simp add: callbacks_def)

lemma data_callbacks:
  assumes "sendFlag st" and "responseText st = Some t"
  shows "sendFlag (callbacks E ssl (map Data chunks) st) \<and>
         responseText (callbacks E ssl (map Data chunks) st) = Some (t @ concat chunks) \<and>
         status (callbacks E ssl (map Data chunks) st) = status st \<and>
         errorFlag (callbacks E ssl (map Data chunks) st) = errorFlag st"
  using assms
proof (induction chunks arbitrary: st t)
  case Nil
  then show ?case by simp
next
  case (Cons c cs)
  let ?s = "after (callback_step E ssl (Data c) st)"
  have 1: "sendFlag ?s" "responseText ?s = Some (t @ c)" "status ?s = status st"
    "errorFlag ?s = errorFlag st"
    using Cons.prems by (simp_all add: after_def Let_def text_of_def)
  from Cons.IH [OF 1(1,2)] 1(3,4) show ?case
    by (simp add: callbacks_Cons)
qed

lemma async_exchange:
  assumes "sendFlag sa" and "responseText sa = Some []" and "\<not> is_redirect (statusCode resp)"
  shows "readyState (callbacks E ssl (Response resp # map Data chunks @ [End]) sa) = DONE \<and>
         status (callbacks E ssl (Response resp # map Data chunks @ [End]) sa)
           = Some (statusCode resp) \<and>
         responseText (callbacks E ssl (Response resp # map Data chunks @ [End]) sa)
           = Some (concat chunks)"
proof -
  let ?s1 = "after (callback_step E ssl (Response resp) sa)"
  have 1: "sendFlag ?s1" "responseText ?s1 = Some []" "status ?s1 = Some (statusCode resp)"
    using assms by (simp_all add: after_def responseHandler_def Let_def)
  let ?s2 = "callbacks E ssl (map Data chunks) ?s1"
  from data_callbacks [OF 1(1,2), of E ssl chunks] 1(3)
  have 2: "sendFlag ?s2" "responseText ?s2 = Some (concat chunks)"
    "status ?s2 = Some (statusCode resp)"
    by simp_all
  have "callbacks E ssl (Response resp # map Data chunks @ [End]) sa
          = after (callback_step E ssl End ?s2)"
    by (simp add: callbacks_Cons callbacks_append)
  with 2 show ?thesis
    by (simp add: after_def)
qed

text \<open>
  Claim C8, amended. Take an object that is OPENED with the async flag false and an http
  or https URL, a worker that removes the sentinel file at some poll, and a content file
  that holds a response. Then \<open>send\<close> returns, and on return \<open>readyState\<close> is DONE,
  \<open>status\<close> and \<open>responseText\<close> are the status code and the body text of that response,
  and DONE is the only value assigned to \<open>readyState\<close> during the call. If moreover the
  status is none of 301, 302, 303, 307 and \<open>responseText\<close> was empty before the call,
  the asynchronous path ends in the same \<open>readyState\<close>, \<open>status\<close> and \<open>responseText\<close>:
  the same object with the async flag set, the same \<open>send\<close>, then the response, its
  body in chunks of any division, and the end of the stream.
\<close>

theorem sync_send_completes:
  assumes "readyState st = OPENED" and "\<not> sendFlag st"
    and "async (settings st) = Some False"
    and "url (settings st) = Some s" and "parseURL E s = Some u"
    and "protocol u = ''http:'' \<or> protocol u = ''https:''"
    and "\<not> syncFileExists E n" and "syncResult E = Inr (resp, body)"
  shows "\<exists>st'. send E data st = Some (Inr st') \<and>
           readyState st' = DONE \<and> status st' = Some (statusCode resp) \<and>
           responseText st' = Some body \<and> states_of (since st st') = [DONE] \<and>
           (\<not> is_redirect (statusCode resp) \<and> responseText st = Some [] \<longrightarrow>
              (\<forall>chunks ssl. concat chunks = body \<longrightarrow>
                 (\<exists>sa. send E data (st\<lparr> settings := (settings st)\<lparr> async := Some True \<rparr> \<rparr>)
                          = Some (Inr sa) \<and>
                    readyState (callbacks E ssl (Response resp # map Data chunks @ [End]) sa)
                      = readyState st' \<and>
                    status (callbacks E ssl (Response resp # map Data chunks @ [End]) sa)
                      = status st' \<and>
                    responseText (callbacks E ssl (Response resp # map Data chunks @ [End]) sa)
                      = responseText st')))"
proof -
  define ssl0 where "ssl0 = (protocol u = ''https:'')"
  define host where "host = (if ssl0 then [] else hostname u)"
  let ?sta = "st\<lparr> settings := (settings st)\<lparr> async := Some True \<rparr> \<rparr>"
  have send_eq: "send E data x = send_network E ssl0 host u data x"
    if "readyState x = OPENED" "\<not> sendFlag x" "url (settings x) = Some s" for x
    using that assms(5,6) by (auto simp add: send_def ssl0_def host_def)
  \<comment> \<open>the synchronous call\<close>
  have na: "async (settings st) \<noteq> Some True" using assms(3) by simp
  from send_network_sync [OF na assms(7,8), of ssl0 host u data]
  obtain st1 opts where h: "headers_only st st1"
    and sn: "send_network E ssl0 host u data st =
             Some (Inr (setState DONE
               (st1\<lparr> errorFlag := False, trace := trace st @ [Spawned ssl0 opts],
                     response := Some resp, status := Some (statusCode resp),
                     responseText := Some body \<rparr>)))"
    by blast
  let ?st' = "setState DONE
               (st1\<lparr> errorFlag := False, trace := trace st @ [Spawned ssl0 opts],
                     response := Some resp, status := Some (statusCode resp),
                     responseText := Some body \<rparr>)"
  note f = headers_only_fields [OF h]
  have ret: "send E data st = Some (Inr ?st')"
    using send_eq [OF assms(1,2,4)] sn by simp
  have fields: "readyState ?st' = DONE" "status ?st' = Some (statusCode resp)"
    "responseText ?st' = Some body"
    by simp_all
  have "trace ?st' = trace st @ [Spawned ssl0 opts, ReadyState DONE, Fired ''readystatechange'',
           Fired ''load'', Fired ''loadend'']"
    using assms(1) by (simp add: setState_unfold f)
  then have hist: "states_of (since st ?st') = [DONE]"
    by (simp add: since_def)
  \<comment> \<open>the asynchronous exchange with the same answer\<close>
  have cmp: "\<exists>sa. send E data ?sta = Some (Inr sa) \<and>
                readyState (callbacks E ssl (Response resp # map Data chunks @ [End]) sa)
                  = readyState ?st' \<and>
                status (callbacks E ssl (Response resp # map Data chunks @ [End]) sa)
                  = status ?st' \<and>
                responseText (callbacks E ssl (Response resp # map Data chunks @ [End]) sa)
                  = responseText ?st'"
    if nr: "\<not> is_redirect (statusCode resp)" and rt: "responseText st = Some []"
      and ch: "concat chunks = body" for chunks ssl
  proof -
    have a: "async (settings ?sta) = Some True" by simp
    from send_network_async [OF a, of E ssl0 host u data]
    obtain sa1 req evs where ha: "headers_only ?sta sa1"
      and sna: "send_network E ssl0 host u data ?sta =
             Some (Inr (sa1\<lparr> errorFlag := False, sendFlag := True, request := req,
                              trace := trace ?sta @ evs \<rparr>))"
      by blast
    let ?sa = "sa1\<lparr> errorFlag := False, sendFlag := True, request := req,
                    trace := trace ?sta @ evs \<rparr>"
    have "send E data ?sta = Some (Inr ?sa)"
      using send_eq [of ?sta] sna assms(1,2,4) by simp
    moreover have "sendFlag ?sa" "responseText ?sa = Some []"
      using headers_only_fields(5) [OF ha] rt by simp_all
    note async_exchange [OF this nr, of E ssl chunks]
    ultimately show ?thesis using ch fields by auto
  qed
  from ret fields hist cmp show ?thesis
    by (intro exI [of _ ?st']) blast
qed


text \<open>
  Claim C8 says that the synchronous result is what the asynchronous path produces for
  the same target. For a target that answers 302 the synchronous \<open>send\<close> ends in DONE
  with status 302 and the body of that answer; the worker follows no redirect. The
  asynchronous path, on the same answer, issues the follow-up request and reports
  nothing (still OPENED, no status); once the follow-up is answered with 200 it ends
  with status 200 and the body of the second answer.
\<close>

theorem sync_async_redirect_counterexample:
  "syncResult example_env = Inr (moved_response, ''moved'') \<and>
   send example_env None (opened ''GET'' ''http://example.com/'' False)
     = Some (Inr (sent ''GET'' ''http://example.com/'' False)) \<and>
   readyState (sent ''GET'' ''http://example.com/'' False) = DONE \<and>
   status (sent ''GET'' ''http://example.com/'' False) = Some 302 \<and>
   responseText (sent ''GET'' ''http://example.com/'' False) = Some ''moved'' \<and>
   send example_env None (opened ''GET'' ''http://example.com/'' True)
     = Some (Inr (sent ''GET'' ''http://example.com/'' True)) \<and>
   readyState (callbacks example_env False [Response moved_response]
                 (sent ''GET'' ''http://example.com/'' True)) = OPENED \<and>
   status (callbacks example_env False [Response moved_response]
             (sent ''GET'' ''http://example.com/'' True)) = None \<and>
   status (callbacks example_env False
             [Response moved_response, Response ok_response, Data ''final'', End]
             (sent ''GET'' ''http://example.com/'' True)) = Some 200 \<and>
   responseText (callbacks example_env False
             [Response moved_response, Response ok_response, Data ''final'', End]
             (sent ''GET'' ''http://example.com/'' True)) = Some ''final''"
  by code_simp

theorem sync_send_completes_witness:
  "readyState (opened ''GET'' ''http://example.com/'' False) = OPENED \<and>
   \<not> sendFlag (opened ''GET'' ''http://example.com/'' False) \<and>
   async (settings (opened ''GET'' ''http://example.com/'' False)) = Some False \<and>
   parseURL answered_env ''http://example.com/'' = Some example_url \<and>
   protocol example_url = ''http:'' \<and>
   \<not> syncFileExists answered_env 2 \<and>
   syncResult answered_env = Inr (ok_response, ''final'') \<and>
   (\<exists>st'. send answered_env None (opened ''GET'' ''http://example.com/'' False) = Some (Inr st') \<and>
      readyState st' = DONE \<and> status st' = Some 200 \<and> responseText st' = Some ''final'' \<and>
      states_of (since (opened ''GET'' ''http://example.com/'' False) st') = [DONE] \<and>
      (\<exists>sa. send answered_env None
               ((opened ''GET'' ''http://example.com/'' False)
                  \<lparr> settings := (settings (opened ''GET'' ''http://example.com/'' False))
                                   \<lparr> async := Some True \<rparr> \<rparr>) = Some (Inr sa) \<and>
         readyState (callbacks answered_env False
                       (Response ok_response # map Data [''fi'', ''nal''] @ [End]) sa) = DONE \<and>
         status (callbacks answered_env False
                   (Response ok_response # map Data [''fi'', ''nal''] @ [End]) sa) = Some 200 \<and>
         responseText (callbacks answered_env False
                   (Response ok_response # map Data [''fi'', ''nal''] @ [End]) sa)
           = Some ''final''))"
proof -
  let ?st = "opened ''GET'' ''http://example.com/'' False"
  have a: "readyState ?st = OPENED" and b: "\<not> sendFlag ?st"
    and c: "async (settings ?st) = Some False"
    and d: "url (settings ?st) = Some ''http://example.com/''"
    and rt: "responseText ?st = Some []"
    by (simp_all add: opened_simps)
  have e: "parseURL answered_env ''http://example.com/'' = Some example_url"
    by (simp add: answered_env_def example_env_def)
  have f: "protocol example_url = ''http:'' \<or> protocol example_url = ''https:''"
    and f': "protocol example_url = ''http:''"
    by (simp_all add: example_url_def)
  have g: "\<not> syncFileExists answered_env 2"
    by (simp add: answered_env_def example_env_def)
  have h: "syncResult answered_env = Inr (ok_response, ''final'')"
    by (simp add: answered_env_def)
  have nr: "\<not> is_redirect (statusCode ok_response)" and sc: "statusCode ok_response = 200"
    by (simp_all add: is_redirect_def ok_response_def)
  from sync_send_completes [OF a b c d e f g h, of None]
  obtain st' where 1: "send answered_env None ?st = Some (Inr st')"
    "readyState st' = DONE" "status st' = Some (statusCode ok_response)"
    "responseText st' = Some ''final''" "states_of (since ?st st') = [DONE]"
    and 2: "\<not> is_redirect (statusCode ok_response) \<and> responseText ?st = Some [] \<longrightarrow>
              (\<forall>chunks ssl. concat chunks = ''final'' \<longrightarrow>
                 (\<exists>sa. send answered_env None (?st\<lparr> settings := (settings ?st)\<lparr> async := Some True \<rparr> \<rparr>)
                          = Some (Inr sa) \<and>
                    readyState (callbacks answered_env ssl (Response ok_response # map Data chunks @ [End]) sa)
                      = readyState st' \<and>
                    status (callbacks answered_env ssl (Response ok_response # map Data chunks @ [End]) sa)
                      = status st' \<and>
                    responseText (callbacks answered_env ssl (Response ok_response # map Data chunks @ [End]) sa)
                      = responseText st'))"
    by blast
  have "concat [''fi'', ''nal''] = ''final''" by simp
  with 2 nr rt obtain sa where
    3: "send answered_env None (?st\<lparr> settings := (settings ?st)\<lparr> async := Some True \<rparr> \<rparr>)
          = Some (Inr sa)"
      "readyState (callbacks answered_env False
         (Response ok_response # map Data [''fi'', ''nal''] @ [End]) sa) = readyState st'"
      "status (callbacks answered_env False
         (Response ok_response # map Data [''fi'', ''nal''] @ [End]) sa) = status st'"
      "responseText (callbacks answered_env False
         (Response ok_response # map Data [''fi'', ''nal''] @ [End]) sa) = responseText st'"
    by blast
  have inner: "\<exists>sa. send answered_env None
               (?st\<lparr> settings := (settings ?st)\<lparr> async := Some True \<rparr> \<rparr>) = Some (Inr sa) \<and>
         readyState (callbacks answered_env False
                       (Response ok_response # map Data [''fi'', ''nal''] @ [End]) sa) = DONE \<and>
         status (callbacks answered_env False
                   (Response ok_response # map Data [''fi'', ''nal''] @ [End]) sa) = Some 200 \<and>
         responseText (callbacks answered_env False
                   (Response ok_response # map Data [''fi'', ''nal''] @ [End]) sa)
           = Some ''final''"
    using 3 1(2,3,4) sc by (intro exI [of _ sa]) simp
  have outer: "\<exists>st'. send answered_env None ?st = Some (Inr st') \<and>
      readyState st' = DONE \<and> status st' = Some 200 \<and> responseText st' = Some ''final'' \<and>
      states_of (since ?st st') = [DONE] \<and>
      (\<exists>sa. send answered_env None
               (?st\<lparr> settings := (settings ?st)\<lparr> async := Some True \<rparr> \<rparr>) = Some (Inr sa) \<and>
         readyState (callbacks answered_env False
                       (Response ok_response # map Data [''fi'', ''nal''] @ [End]) sa) = DONE \<and>
         status (callbacks answered_env False
                   (Response ok_response # map Data [''fi'', ''nal''] @ [End]) sa) = Some 200 \<and>
         responseText (callbacks answered_env False
                   (Response ok_response # map Data [''fi'', ''nal''] @ [End]) sa)
           = Some ''final'')"
    using 1 sc inner by (intro exI [of _ st']) simp
  from a b c e f' g h outer show ?thesis by (intro conjI)
qed


end
